theory Spec2Isabelle
  imports
    Complex_Main
    "HOL-Library.List_Lexorder"
    "HOL-Library.AList"
    "HOL-Library.Multiset"
begin

section \<open>Python values\<close>

text \<open>
  A Python \<open>str\<close> is a sequence of Unicode code points, so it is modelled as a list of
  natural numbers (Isabelle's \<open>char\<close> is a byte and cannot hold the curly quotes the parser
  strips). \<open>pystr\<close> turns an ASCII literal into such a string. The order on strings is the
  lexicographic order on code points, as Python compares them.

  A Python \<open>float\<close> is modelled as a real number: arithmetic is exact, and the rounding
  error of IEEE double arithmetic is not part of the model. A stored double can differ
  from the model's value by that rounding, and once \<open>round\<close> is applied to it, by a unit
  of the last digit kept. What is proved about the similarity matrix is therefore what
  does not depend on rounding: which errors are raised, the shape, the symmetry and the
  sign of the values.
\<close>

type_synonym pystr = "nat list"

definition pystr :: "string \<Rightarrow> pystr" where
  "pystr s = map of_char s"

datatype error = ValueError | RuntimeError | KeyError | IndexError | ZeroDivisionError

text \<open>
  A \<open>dict\<close> keeps its keys in insertion order: an association list with distinct keys.
  \<open>d[k] = v\<close> overwrites in place or appends, which is \<open>AList.update\<close>; \<open>d.get(k)\<close>
  is \<open>map_of\<close>; \<open>len(d)\<close> is the length of the list.
\<close>

type_synonym ('k, 'v) dict = "('k \<times> 'v) list"

text \<open>A \<open>Counter\<close> is a dict whose missing keys read as 0.\<close>

definition counter_get :: "('k, nat) dict \<Rightarrow> 'k \<Rightarrow> nat" where
  "counter_get c k = (case map_of c k of None \<Rightarrow> 0 | Some n \<Rightarrow> n)"

definition counter_incr :: "'k \<Rightarrow> ('k, nat) dict \<Rightarrow> ('k, nat) dict" where
  \<comment> \<open>\<open>c[k] += 1\<close>\<close>
  "counter_incr k c = AList.update k (counter_get c k + 1) c"

definition Counter :: "'k list \<Rightarrow> ('k, nat) dict" where
  \<comment> \<open>\<open>Counter(iterable)\<close>\<close>
  "Counter xs = fold counter_incr xs []"

text \<open>
  A loop \<open>for x in xs: out.append(f(x))\<close> whose body may raise: the first error ends
  the loop and is the result.
\<close>

fun collect :: "('a \<Rightarrow> error + 'b) \<Rightarrow> 'a list \<Rightarrow> error + 'b list" where
  "collect f [] = Inr []"
| "collect f (x # xs) =
     (case f x of
        Inl e \<Rightarrow> Inl e
      | Inr y \<Rightarrow> (case collect f xs of Inl e \<Rightarrow> Inl e | Inr ys \<Rightarrow> Inr (y # ys)))"

section \<open>data.py: tagged documents\<close>

record TaggedDocument =
  "identifier" :: pystr
  tags :: "pystr list"
  source :: "pystr option"

section \<open>embedding.py: the TF-IDF model\<close>

record TagEmbeddingModel =
  vocabulary :: "(pystr, nat) dict"
  idf :: "real list"
  fitted :: bool

text \<open>
  The fields \<open>vocabulary_\<close> and \<open>idf_\<close> of the source are \<open>vocabulary\<close> and \<open>idf\<close> here
  (a name cannot end in an underscore). \<open>new_model\<close> is the state of a freshly constructed
  instance (the dataclass defaults).
\<close>

definition new_model :: TagEmbeddingModel where
  "new_model = \<lparr>vocabulary = [], idf = [], fitted = False\<rparr>"

text \<open>
  The first loop of \<open>fit\<close>. Python iterates \<open>set(document.tags)\<close> in an unspecified
  order; the model visits each distinct tag once, in the order of \<open>remdups\<close>. Only the counts
  and the sorted keys are used afterwards, and neither depends on that order
  (lemmas \<open>counter_get_fold_incr\<close> and \<open>keys_fold_incr\<close> below).
\<close>

definition document_frequency :: "TaggedDocument list \<Rightarrow> (pystr, nat) dict" where
  "document_frequency documents =
     fold (\<lambda>document df. fold counter_incr (remdups (tags document)) df) documents []"

definition fit :: "TagEmbeddingModel \<Rightarrow> TaggedDocument list \<Rightarrow> error + TagEmbeddingModel" where
  "fit self documents =
     (if documents = [] then Inl ValueError
      else
        let doc_count = length documents;
            df = document_frequency documents;
            sorted_tags = sort (map fst df)
        in Inr (self\<lparr>
             vocabulary :=
               fold (\<lambda>(index, tag) voc. AList.update tag index voc) (enumerate 0 sorted_tags) [],
             idf :=
               map (\<lambda>tag. ln ((1 + real doc_count) / (1 + real (counter_get df tag))) + 1)
                 sorted_tags,
             fitted := True\<rparr>))"

text \<open>
  The inner loop of \<open>transform\<close> over \<open>counts.items()\<close>. Reading \<open>self.idf[index]\<close> and
  writing \<open>vector[index]\<close> raise IndexError out of range.
\<close>

fun fill_vector ::
  "TagEmbeddingModel \<Rightarrow> nat \<Rightarrow> (pystr \<times> nat) list \<Rightarrow> real list \<Rightarrow> error + real list" where
  "fill_vector self total' [] vector = Inr vector"
| "fill_vector self total' ((tag, count') # rest) vector =
     (case map_of (vocabulary self) tag of
        None \<Rightarrow> fill_vector self total' rest vector
      | Some index \<Rightarrow>
          if index < length (idf self) \<and> index < length vector
          then fill_vector self total' rest
                 (vector[index := (real count' / real total') * (idf self ! index)])
          else Inl IndexError)"

definition transform_document :: "TagEmbeddingModel \<Rightarrow> TaggedDocument \<Rightarrow> error + real list" where
  "transform_document self document =
     (let counts = Counter (tags document);
          total' = (if sum_list (map snd counts) = 0 then 1 else sum_list (map snd counts));
          vector = replicate (length (vocabulary self)) 0
      in fill_vector self total' counts vector)"

definition transform ::
  "TagEmbeddingModel \<Rightarrow> TaggedDocument list \<Rightarrow> error + real list list" where
  "transform self documents =
     (if \<not> fitted self then Inl RuntimeError
      else collect (transform_document self) documents)"

text \<open>\<open>fit_transform\<close> returns the state of the instance afterwards and the result.\<close>

definition fit_transform ::
  "TagEmbeddingModel \<Rightarrow> TaggedDocument list \<Rightarrow> TagEmbeddingModel \<times> (error + real list list)" where
  "fit_transform self documents =
     (case fit self documents of
        Inl e \<Rightarrow> (self, Inl e)
      | Inr self' \<Rightarrow> (self', transform self' documents))"

section \<open>similarity.py: the similarity matrix\<close>

text \<open>
  Division raises ZeroDivisionError on a zero divisor. In \<open>_cosine_similarity\<close> the divisor
  is the product of two norms that are not zero, which is not zero (lemma
  \<open>cosine_similarity_Inr\<close>); this is so in double arithmetic too, where the square root of
  a positive double is at least \<open>2 ^ -537\<close> and the product at least \<open>2 ^ -1074\<close>.
\<close>

definition py_truediv :: "real \<Rightarrow> real \<Rightarrow> error + real" where
  \<comment> \<open>\<open>a / b\<close> on floats\<close>
  "py_truediv a b = (if b = 0 then Inl ZeroDivisionError else Inr (a / b))"

definition cosine_similarity :: "real list \<Rightarrow> real list \<Rightarrow> error + real" where
  "cosine_similarity vec_a vec_b =
     (let dot = sum_list (map (\<lambda>(a, b). a * b) (zip vec_a vec_b));
          norm_a = sqrt (sum_list (map (\<lambda>a. a * a) vec_a));
          norm_b = sqrt (sum_list (map (\<lambda>b. b * b) vec_b))
      in if norm_a = 0 \<or> norm_b = 0 then Inr 0
         else py_truediv dot (norm_a * norm_b))"

record SimilarityMatrix =
  labels :: "pystr list"
  matrix_values :: "real list list"

text \<open>
  \<open>round(x, ndigits)\<close> on a float: to the nearest multiple of \<open>10 ^ (- ndigits)\<close>, a tie
  going to the even multiple. \<open>ndigits\<close> may be negative.
\<close>

definition round_half_even :: "real \<Rightarrow> int" where
  "round_half_even x =
     (let f = \<lfloor>x\<rfloor>; r = x - of_int f
      in if r < 1 / 2 then f
         else if 1 / 2 < r then f + 1
         else if even f then f else f + 1)"

definition py_round :: "real \<Rightarrow> int \<Rightarrow> real" where
  "py_round x ndigits =
     (if 0 \<le> ndigits
      then of_int (round_half_even (x * 10 ^ nat ndigits)) / 10 ^ nat ndigits
      else of_int (round_half_even (x / 10 ^ nat (- ndigits))) * 10 ^ nat (- ndigits))"

text \<open>The body of the inner loop of \<open>build_similarity_matrix\<close>.\<close>

definition similarity_cell :: "int option \<Rightarrow> real list \<Rightarrow> real list \<Rightarrow> error + real" where
  "similarity_cell decimals vec_a vec_b =
     (case cosine_similarity vec_a vec_b of
        Inl e \<Rightarrow> Inl e
      | Inr similarity \<Rightarrow>
          (case decimals of
             None \<Rightarrow> Inr similarity
           | Some d \<Rightarrow> Inr (py_round similarity d)))"

definition build_similarity_matrix ::
  "TaggedDocument list \<Rightarrow> real list list \<Rightarrow> int option \<Rightarrow> error + SimilarityMatrix" where
  "build_similarity_matrix documents embeddings decimals =
     (if length documents = 0 then Inl ValueError
      else
        (case collect (\<lambda>vec_a. collect (similarity_cell decimals vec_a) embeddings) embeddings of
           Inl e \<Rightarrow> Inl e
         | Inr matrix \<Rightarrow> Inr \<lparr>labels = map identifier documents, matrix_values = matrix\<rparr>))"

text \<open>
  \<open>labels.index(label)\<close>: the position of the first occurrence; \<open>None\<close> stands for the
  ValueError of a label that does not occur.
\<close>

fun index_of :: "'a list \<Rightarrow> 'a \<Rightarrow> nat option" where
  "index_of [] x = None"
| "index_of (y # ys) x = (if y = x then Some 0 else map_option Suc (index_of ys x))"

definition row :: "SimilarityMatrix \<Rightarrow> pystr \<Rightarrow> error + (pystr \<times> real) list" where
  "row self label =
     (case index_of (labels self) label of
        None \<Rightarrow> Inl ValueError
      | Some index \<Rightarrow>
          if index < length (matrix_values self)
          then Inr (zip (labels self) (matrix_values self ! index))
          else Inl IndexError)"

text \<open>
  \<open>scores.sort(key=lambda item: item[1], reverse=True)\<close>: CPython reverses the list,
  sorts it stably in ascending order of the key and reverses the result, so equal scores
  keep their original order.
\<close>

definition sort_by_score_reverse :: "(pystr \<times> real) list \<Rightarrow> (pystr \<times> real) list" where
  "sort_by_score_reverse scores = rev (sort_key snd (rev scores))"

text \<open>The slice \<open>xs[:n]\<close>; a negative \<open>n\<close> counts from the end.\<close>

definition slice_to :: "'a list \<Rightarrow> int \<Rightarrow> 'a list" where
  "slice_to xs n =
     (if 0 \<le> n then take (nat n) xs else take (nat (int (length xs) + n)) xs)"

definition get_top_similar ::
  "SimilarityMatrix \<Rightarrow> pystr \<Rightarrow> int \<Rightarrow> bool \<Rightarrow> error + (pystr \<times> real) list" where
  "get_top_similar similarity_matrix target top_n include_self =
     (if target \<notin> set (labels similarity_matrix) then Inl KeyError
      else
        (case row similarity_matrix target of
           Inl e \<Rightarrow> Inl e
         | Inr scores \<Rightarrow>
             let scores = (if \<not> include_self
                           then filter (\<lambda>(label, score). label \<noteq> target) scores
                           else scores);
                 scores = sort_by_score_reverse scores
             in Inr (slice_to scores top_n)))"

section \<open>The life of a model instance\<close>

text \<open>
  The calls a client can make on a \<open>TagEmbeddingModel\<close>, and the state of the instance
  after a call, whether the call returns or raises: \<open>fit\<close> assigns the three fields only
  after its check and its computation, \<open>transform\<close> assigns nothing, and \<open>fit_transform\<close>
  is \<open>fit\<close> followed by \<open>transform\<close>.
\<close>

datatype operation =
    Fit "TaggedDocument list"
  | Transform "TaggedDocument list"
  | FitTransform "TaggedDocument list"

fun apply_operation :: "TagEmbeddingModel \<Rightarrow> operation \<Rightarrow> TagEmbeddingModel" where
  "apply_operation self (Fit documents) =
     (case fit self documents of Inl e \<Rightarrow> self | Inr self' \<Rightarrow> self')"
| "apply_operation self (Transform documents) = self"
| "apply_operation self (FitTransform documents) = fst (fit_transform self documents)"

fun run :: "TagEmbeddingModel \<Rightarrow> operation list \<Rightarrow> TagEmbeddingModel" where
  "run self [] = self"
| "run self (operation # operations) = run (apply_operation self operation) operations"

text \<open>A call that fits again with at least one document.\<close>

fun refits :: "operation \<Rightarrow> bool" where
  "refits (Fit documents) = (documents \<noteq> [])"
| "refits (Transform documents) = False"
| "refits (FitTransform documents) = (documents \<noteq> [])"

section \<open>data.py: the parser\<close>

text \<open>
  The code points that \<open>str.strip()\<close> and \<open>str.split()\<close> treat as whitespace, and the
  characters of the string \<open>"'\"` \<dots>"\<close> that \<open>_normalise_tag\<close> strips: apostrophe, double
  quote, backtick, space, the curly quotes U+201C, U+201D and U+2019, and the middle dot
  U+00B7.
\<close>

definition is_space :: "nat \<Rightarrow> bool" where
  "is_space c \<longleftrightarrow>
     c \<in> {9, 10, 11, 12, 13, 28, 29, 30, 31, 32, 133, 160, 5760, 8232, 8233, 8239, 8287, 12288}
     \<or> (8192 \<le> c \<and> c \<le> 8202)"

definition quote_like :: "nat \<Rightarrow> bool" where
  "quote_like c \<longleftrightarrow> c \<in> {39, 34, 96, 32, 8220, 8221, 8217, 183}"

definition strip_chars :: "(nat \<Rightarrow> bool) \<Rightarrow> pystr \<Rightarrow> pystr" where
  \<comment> \<open>\<open>s.strip(chars)\<close>\<close>
  "strip_chars p s = rev (dropWhile p (rev (dropWhile p s)))"

definition strip :: "pystr \<Rightarrow> pystr" where
  \<comment> \<open>\<open>s.strip()\<close>\<close>
  "strip s = strip_chars is_space s"

definition find_char :: "pystr \<Rightarrow> nat \<Rightarrow> nat \<Rightarrow> int" where
  \<comment> \<open>\<open>s.find(c, start)\<close> for a single character \<open>c\<close> and \<open>start \<ge> 0\<close>\<close>
  "find_char s c start =
     (case index_of (drop start s) c of None \<Rightarrow> - 1 | Some i \<Rightarrow> int (start + i))"

fun split_on :: "nat \<Rightarrow> pystr \<Rightarrow> pystr list" where
  \<comment> \<open>\<open>s.split(sep)\<close> for a single character \<open>sep\<close>\<close>
  "split_on sep [] = [[]]"
| "split_on sep (c # cs) =
     (if c = sep then [] # split_on sep cs
      else (case split_on sep cs of
              [] \<Rightarrow> [[c]]
            | piece # pieces \<Rightarrow> (c # piece) # pieces))"

fun split_whitespace_from :: "pystr \<Rightarrow> pystr \<Rightarrow> pystr list" where
  \<comment> \<open>the first argument is the word read so far\<close>
  "split_whitespace_from word [] = (if word = [] then [] else [word])"
| "split_whitespace_from word (c # cs) =
     (if is_space c
      then (if word = [] then split_whitespace_from [] cs
            else word # split_whitespace_from [] cs)
      else split_whitespace_from (word @ [c]) cs)"

definition split_whitespace :: "pystr \<Rightarrow> pystr list" where
  \<comment> \<open>\<open>s.split()\<close>\<close>
  "split_whitespace s = split_whitespace_from [] s"

fun join :: "pystr \<Rightarrow> pystr list \<Rightarrow> pystr" where
  \<comment> \<open>\<open>sep.join(parts)\<close>\<close>
  "join sep [] = []"
| "join sep [part] = part"
| "join sep (part # next_part # parts) = part @ sep @ join sep (next_part # parts)"

definition extract_bracket_content :: "pystr \<Rightarrow> pystr option" where
  "extract_bracket_content line =
     (let start = find_char line 91 0;
          end_index = find_char line 93 (nat (start + 1))
      in if start = - 1 \<or> end_index = - 1 then None
         else Some (drop (nat (start + 1)) (take (nat end_index) line)))"

definition normalise_tag :: "pystr \<Rightarrow> pystr option" where
  "normalise_tag token =
     (let cleaned = strip_chars quote_like (strip token)
      in if cleaned = [] then None
         else Some (join [32] (split_whitespace cleaned)))"

definition build_identifier :: "pystr list \<Rightarrow> pystr \<Rightarrow> pystr" where
  "build_identifier tag_list line =
     (let closing = find_char line 93 0;
          suffix =
            (if closing \<noteq> - 1
             then (let suffix_candidate = strip (drop (nat (closing + 1)) line)
                   in if take 1 suffix_candidate = [46] then Some (drop 1 suffix_candidate)
                      else None)
             else None);
          base = (if tag_list \<noteq> [] then join [95] tag_list else strip line)
      in case suffix of
           None \<Rightarrow> base
         | Some extension \<Rightarrow> if extension \<noteq> [] then base @ [46] @ extension else base)"

text \<open>
  The loop over the tokens of one line: a token is kept when \<open>_normalise_tag\<close> returns
  a string that is not empty.
\<close>

fun collect_tags :: "pystr list \<Rightarrow> pystr list" where
  "collect_tags [] = []"
| "collect_tags (token # tokens) =
     (case normalise_tag token of
        None \<Rightarrow> collect_tags tokens
      | Some normalised \<Rightarrow>
          if normalised \<noteq> [] then normalised # collect_tags tokens
          else collect_tags tokens)"

text \<open>
  One round of the loop of \<open>parse_contents_lines\<close> on the state
  \<open>(documents, seen_identifiers)\<close>. Every \<open>continue\<close> leaves the state as it is; the log
  messages are not part of the model (the test for a line ending in \<open>contents.txt\<close> only
  chooses whether a warning is logged).
\<close>

definition parse_line ::
  "bool \<Rightarrow> pystr \<Rightarrow> TaggedDocument list \<times> pystr set \<Rightarrow> TaggedDocument list \<times> pystr set" where
  "parse_line drop_duplicates raw_line state =
     (let line = strip raw_line
      in if line = [] then state
         else
           (case extract_bracket_content line of
              None \<Rightarrow> state
            | Some bracket_content \<Rightarrow>
                (let tag_list = collect_tags (split_on 44 bracket_content)
                 in if tag_list = [] then state
                    else
                      (let ident = build_identifier tag_list line
                       in if drop_duplicates \<and> ident \<in> snd state then state
                          else (fst state @
                                  [\<lparr>identifier = ident, tags = tag_list, source = Some line\<rparr>],
                                if drop_duplicates then insert ident (snd state)
                                else snd state)))))"

definition parse_contents_lines :: "pystr list \<Rightarrow> bool \<Rightarrow> TaggedDocument list" where
  "parse_contents_lines lines drop_duplicates =
     fst (fold (parse_line drop_duplicates) lines ([], {}))"

section \<open>The specification's TF-IDF\<close>

text \<open>
  These definitions follow the words of the specification, for documents \<open>D\<close> given to
  \<open>fit\<close>: the document frequency of a tag is the number of documents whose tags contain
  it; the vocabulary is the set of all tags observed, in sorted order; the weight
  \<open>IDF(tag)\<close> is \<open>ln((1 + N) / (1 + df(tag))) + 1\<close> with \<open>N = len(D)\<close>; and \<open>T\<close> is the
  number of tags of a document, or 1 when it has none.
\<close>

definition df_count :: "TaggedDocument list \<Rightarrow> pystr \<Rightarrow> nat" where
  "df_count D tag = length (filter (\<lambda>document. tag \<in> set (tags document)) D)"

definition sorted_tags :: "TaggedDocument list \<Rightarrow> pystr list" where
  "sorted_tags D = sorted_list_of_set (\<Union>document \<in> set D. set (tags document))"

definition IDF :: "TaggedDocument list \<Rightarrow> pystr \<Rightarrow> real" where
  "IDF D tag = ln ((1 + real (length D)) / (1 + real (df_count D tag))) + 1"

definition total_count :: "TaggedDocument \<Rightarrow> nat" where
  "total_count document = (if tags document = [] then 1 else length (tags document))"

section \<open>The specification's cosine similarity\<close>

text \<open>
  These definitions follow the words of the specification, not the code:
  cosine similarity is \<open>(a \<cdot> b) / (\<parallel>a\<parallel> \<cdot> \<parallel>b\<parallel>)\<close>, and exactly 0 when either vector has
  norm zero; a value is stored as it is, or rounded when a precision is given. In the
  exact arithmetic of the model, \<open>cosine_similarity\<close> and \<open>similarity_cell\<close> above compute
  them (lemmas \<open>cosine_similarity_Inr\<close> and \<open>similarity_cell_Inr\<close>).
\<close>

definition dot_product :: "real list \<Rightarrow> real list \<Rightarrow> real" where
  "dot_product a b = sum_list (map (\<lambda>(x, y). x * y) (zip a b))"

definition vec_norm :: "real list \<Rightarrow> real" where
  "vec_norm a = sqrt (sum_list (map (\<lambda>x. x * x) a))"

definition cosine :: "real list \<Rightarrow> real list \<Rightarrow> real" where
  "cosine a b =
     (if vec_norm a = 0 \<or> vec_norm b = 0 then 0
      else dot_product a b / (vec_norm a * vec_norm b))"

definition stored_value :: "int option \<Rightarrow> real \<Rightarrow> real" where
  "stored_value decimals x = (case decimals of None \<Rightarrow> x | Some d \<Rightarrow> py_round x d)"

section \<open>Example inputs\<close>

definition doc_a :: TaggedDocument where
  "doc_a = \<lparr>identifier = pystr ''a'', tags = [pystr ''x''], source = None\<rparr>"

definition matrix_dup :: SimilarityMatrix where
  "matrix_dup =
     \<lparr>labels = [pystr ''a'', pystr ''b'', pystr ''a'', pystr ''c''],
      matrix_values = [[1, 1 / 2, 1 / 4, 3 / 4], [1 / 2, 1, 0, 0], [1 / 4, 0, 1, 0],
                       [3 / 4, 0, 0, 1]]\<rparr>"

definition matrix_short :: SimilarityMatrix where
  "matrix_short = \<lparr>labels = [pystr ''a'', pystr ''b''], matrix_values = [[1]]\<rparr>"

definition doc_b :: TaggedDocument where
  "doc_b = \<lparr>identifier = pystr ''b'', tags = [pystr ''y'', pystr ''x'', pystr ''y''], source = None\<rparr>"

definition doc_first_second :: TaggedDocument where
  "doc_first_second =
     \<lparr>identifier = pystr ''first_second.txt'',
      tags = [pystr ''first'', pystr ''second''],
      source = Some (pystr ''['first','second'].txt'')\<rparr>"

definition doc_first_second_third :: TaggedDocument where
  "doc_first_second_third =
     \<lparr>identifier = pystr ''first_second_third.rtf'',
      tags = [pystr ''first'', pystr ''second'', pystr ''third''],
      source = Some (pystr ''['first,'second','third'].rtf'')\<rparr>"

definition doc_lone :: TaggedDocument where
  "doc_lone =
     \<lparr>identifier = pystr ''lone.pdf'',
      tags = [pystr ''lone''],
      source = Some (pystr ''[' lone '] .pdf'')\<rparr>"

definition malformed_lines :: "pystr list" where
  "malformed_lines =
     [pystr ''['first','second'].txt'',
      pystr ''['first,'second','third'].rtf'',
      pystr ''[' lone '] .pdf'',
      pystr ''no brackets here'',
      pystr ''   '']"

definition doc_z :: TaggedDocument where
  "doc_z = \<lparr>identifier = pystr ''z'', tags = [pystr ''z''], source = None\<rparr>"

section \<open>Loops that cannot fail\<close>

lemma collect_total:
  "(\<And>x. x \<in> set xs \<Longrightarrow> f x = Inr (g x)) \<Longrightarrow> collect f xs = Inr (map g xs)"
  by (induction xs) simp_all

lemma collect_Inr_length: "collect f xs = Inr ys \<Longrightarrow> length ys = length xs"
  by (induction xs arbitrary: ys) (auto split: sum.splits)

lemma collect_Inr_nth:
  "collect f xs = Inr ys \<Longrightarrow> i < length xs \<Longrightarrow> f (xs ! i) = Inr (ys ! i)"
proof (induction xs arbitrary: ys i)
  case Nil
  then show ?case by simp
next
  case (Cons x xs)
  then show ?case by (cases i) (auto split: sum.splits)
qed

section \<open>Error handling\<close>

text \<open>
  C4. \<open>fit\<close> with zero documents raises ValueError, \<open>build_similarity_matrix\<close> with zero
  documents raises ValueError, and \<open>transform\<close> on an instance that is not fitted (a fresh
  one in particular) raises RuntimeError. Each call ends in the error and returns no result,
  whatever the other arguments are.
\<close>

theorem empty_input_errors:
  "fit self [] = Inl ValueError \<and>
   build_similarity_matrix [] embeddings decimals = Inl ValueError \<and>
   transform (self\<lparr>fitted := False\<rparr>) documents = Inl RuntimeError \<and>
   transform new_model documents = Inl RuntimeError"
  by (simp add: fit_def build_similarity_matrix_def transform_def new_model_def)

section \<open>The similarity matrix cell by cell\<close>

lemma cosine_similarity_Inr: "cosine_similarity a b = Inr (cosine a b)"
  by (simp add: cosine_similarity_def cosine_def dot_product_def vec_norm_def py_truediv_def
      Let_def)

lemma similarity_cell_Inr:
  "similarity_cell decimals a b = Inr (stored_value decimals (cosine a b))"
  by (simp add: similarity_cell_def cosine_similarity_Inr stored_value_def split: option.splits)

lemma build_similarity_matrix_Inr:
  assumes "documents \<noteq> []"
  shows "build_similarity_matrix documents embeddings decimals =
    Inr \<lparr>labels = map identifier documents,
         matrix_values =
           map (\<lambda>a. map (\<lambda>b. stored_value decimals (cosine a b)) embeddings) embeddings\<rparr>"
proof -
  have inner: "collect (similarity_cell decimals a) embeddings =
      Inr (map (\<lambda>b. stored_value decimals (cosine a b)) embeddings)" for a
    by (rule collect_total) (rule similarity_cell_Inr)
  have "collect (\<lambda>a. collect (similarity_cell decimals a) embeddings) embeddings =
      Inr (map (\<lambda>a. map (\<lambda>b. stored_value decimals (cosine a b)) embeddings) embeddings)"
    by (rule collect_total) (rule inner)
  with assms show ?thesis
    by (simp add: build_similarity_matrix_def)
qed

text \<open>
  C10. \<open>build_similarity_matrix\<close> does not compare the two lengths: with at least one
  document and an embeddings sequence of another length it raises nothing and returns a
  matrix with \<open>len(embeddings)\<close> rows, each of \<open>len(embeddings)\<close> columns, next to
  \<open>len(documents)\<close> labels.
\<close>

theorem build_ignores_length_mismatch:
  assumes "documents \<noteq> []" and "length embeddings \<noteq> length documents"
  shows "\<exists>M. build_similarity_matrix documents embeddings decimals = Inr M \<and>
    length (matrix_values M) = length embeddings \<and>
    (\<forall>row \<in> set (matrix_values M). length row = length embeddings) \<and>
    length (labels M) = length documents"
  using build_similarity_matrix_Inr [OF assms(1), of embeddings decimals]
  by auto

theorem build_ignores_length_mismatch_witness:
  "[doc_a, doc_a] \<noteq> [] \<and> length [[1::real, 0]] \<noteq> length [doc_a, doc_a] \<and>
   build_similarity_matrix [doc_a, doc_a] [[1, 0]] None =
     Inr \<lparr>labels = [pystr ''a'', pystr ''a''], matrix_values = [[1]]\<rparr>"
  using build_ignores_length_mismatch [of "[doc_a, doc_a]" "[[1, 0]]" None]
  by (auto simp add: build_similarity_matrix_Inr stored_value_def cosine_def vec_norm_def
      dot_product_def doc_a_def)

section \<open>Top-k queries\<close>

lemma index_of_None_iff: "index_of xs x = None \<longleftrightarrow> x \<notin> set xs"
  by (induction xs) auto

lemma index_of_first:
  "index_of xs x = Some i \<Longrightarrow> i < length xs \<and> xs ! i = x \<and> (\<forall>j<i. xs ! j \<noteq> x)"
proof (induction xs arbitrary: i)
  case Nil
  then show ?case by simp
next
  case (Cons y ys)
  show ?case
  proof (cases "y = x")
    case True
    with Cons.prems show ?thesis by simp
  next
    case False
    with Cons.prems obtain k where k: "index_of ys x = Some k" "i = Suc k"
      by auto
    from Cons.IH [OF k(1)] have "k < length ys" "ys ! k = x" "\<forall>j<k. ys ! j \<noteq> x"
      by simp_all
    with False k(2) show ?thesis
      by (auto simp add: nth_Cons split: nat.splits)
  qed
qed

lemma sort_by_score_reverse_descending:
  "sorted_wrt (\<lambda>p q. snd q \<le> snd p) (sort_by_score_reverse scores)"
proof -
  have "sorted (map snd (sort_key snd (rev scores)))"
    by (rule sorted_sort_key)
  then have "sorted_wrt (\<lambda>p q. snd p \<le> snd q) (sort_key snd (rev scores))"
    by (simp add: sorted_map)
  then show ?thesis
    by (simp add: sort_by_score_reverse_def sorted_wrt_rev)
qed

lemma mset_sort_by_score_reverse: "mset (sort_by_score_reverse scores) = mset scores"
  by (simp add: sort_by_score_reverse_def)

lemma slice_to_is_take: "\<exists>k. slice_to xs n = take k xs"
  by (auto simp add: slice_to_def)

lemma length_slice_to: "0 \<le> n \<Longrightarrow> int (length (slice_to xs n)) \<le> n"
  by (simp add: slice_to_def)

lemma get_top_similar_row:
  assumes "index_of (labels M) target = Some i"
  shows "get_top_similar M target top_n include_self =
    (if i < length (matrix_values M)
     then Inr (slice_to (sort_by_score_reverse
            (if include_self then zip (labels M) (matrix_values M ! i)
             else filter (\<lambda>p. fst p \<noteq> target) (zip (labels M) (matrix_values M ! i)))) top_n)
     else Inl IndexError)"
proof -
  from assms have "target \<in> set (labels M)"
    using index_of_None_iff [of "labels M" target] by auto
  moreover have "(\<lambda>(label, score). label \<noteq> target) = (\<lambda>p :: pystr \<times> real. fst p \<noteq> target)"
    by auto
  ultimately show ?thesis
    using assms by (simp add: get_top_similar_def row_def)
qed

lemma top_similar_result_props:
  assumes "res = slice_to (sort_by_score_reverse scores) top_n"
  shows "mset res \<subseteq># mset scores"
    and "set res \<subseteq> set scores"
    and "sorted_wrt (\<lambda>p q. snd q \<le> snd p) res"
    and "0 \<le> top_n \<Longrightarrow> int (length res) \<le> top_n"
proof -
  obtain k where k: "res = take k (sort_by_score_reverse scores)"
    using assms slice_to_is_take by blast
  have "mset (take k (sort_by_score_reverse scores)) \<subseteq># mset (sort_by_score_reverse scores)"
    by (metis append_take_drop_id mset_append mset_subset_eq_add_left)
  with k show "mset res \<subseteq># mset scores"
    by (simp add: mset_sort_by_score_reverse)
  have "set (take k (sort_by_score_reverse scores)) \<subseteq> set (sort_by_score_reverse scores)"
    by (rule set_take_subset)
  with k show "set res \<subseteq> set scores"
    by (simp add: sort_by_score_reverse_def)
  from k show "sorted_wrt (\<lambda>p q. snd q \<le> snd p) res"
    by (simp add: sorted_wrt_take sort_by_score_reverse_descending)
  show "0 \<le> top_n \<Longrightarrow> int (length res) \<le> top_n"
    using assms by (simp add: length_slice_to)
qed

lemma mset_filter_subset: "mset (filter P xs) \<subseteq># mset xs"
  by simp

lemma get_top_similar_found:
  assumes "length (labels M) \<le> length (matrix_values M)" and "target \<in> set (labels M)"
  shows "\<exists>i res. index_of (labels M) target = Some i \<and>
         get_top_similar M target top_n include_self = Inr res \<and>
         mset res \<subseteq># mset (zip (labels M) (matrix_values M ! i)) \<and>
         (\<not> include_self \<longrightarrow> (\<forall>p \<in> set res. fst p \<noteq> target)) \<and>
         sorted_wrt (\<lambda>p q. snd q \<le> snd p) res \<and>
         (0 \<le> top_n \<longrightarrow> int (length res) \<le> top_n)"
proof -
  from assms(2) obtain i where i: "index_of (labels M) target = Some i"
    using index_of_None_iff [of "labels M" target] by auto
  have "i < length (labels M)"
    using index_of_first [OF i] by simp
  with assms(1) have in_range: "i < length (matrix_values M)" by simp
  define row_i where "row_i = zip (labels M) (matrix_values M ! i)"
  define scores where
    "scores = (if include_self then row_i else filter (\<lambda>p. fst p \<noteq> target) row_i)"
  define res where "res = slice_to (sort_by_score_reverse scores) top_n"
  have result: "get_top_similar M target top_n include_self = Inr res"
    using get_top_similar_row [OF i, of top_n include_self] in_range
    by (simp only: res_def scores_def row_i_def if_True)
  have "mset scores \<subseteq># mset row_i"
    by (simp add: scores_def)
  moreover have "mset res \<subseteq># mset scores"
    using res_def by (rule top_similar_result_props(1))
  ultimately have "mset res \<subseteq># mset row_i"
    by (rule subset_mset.order_trans [rotated])
  then have drawn: "mset res \<subseteq># mset (zip (labels M) (matrix_values M ! i))"
    by (simp only: row_i_def)
  have "set res \<subseteq> set scores"
    using res_def by (rule top_similar_result_props(2))
  then have no_self: "\<not> include_self \<longrightarrow> (\<forall>p \<in> set res. fst p \<noteq> target)"
    by (auto simp add: scores_def)
  have ordered: "sorted_wrt (\<lambda>p q. snd q \<le> snd p) res"
    using res_def by (rule top_similar_result_props(3))
  have bounded: "0 \<le> top_n \<longrightarrow> int (length res) \<le> top_n"
    using res_def top_similar_result_props(4) by blast
  from i result drawn no_self ordered bounded show ?thesis
    by (intro exI conjI)
qed

text \<open>
  C5, as amended. For a similarity matrix with a row for every label,
  \<open>get_top_similar\<close> raises (a KeyError) if and only if the target is not among the labels.
  Otherwise it returns pairs drawn from the row of the target's first occurrence, sorted in
  descending order of score, none of them labelled with the target unless \<open>include_self\<close>
  is set, and at most \<open>top_n\<close> of them when \<open>top_n\<close> is not negative.
\<close>

theorem get_top_similar_contract:
  assumes "length (labels M) \<le> length (matrix_values M)"
  shows "((\<exists>e. get_top_similar M target top_n include_self = Inl e) \<longleftrightarrow>
       target \<notin> set (labels M)) \<and>
    (target \<notin> set (labels M) \<longrightarrow>
       get_top_similar M target top_n include_self = Inl KeyError) \<and>
    (target \<in> set (labels M) \<longrightarrow>
      (\<exists>i res. index_of (labels M) target = Some i \<and>
         get_top_similar M target top_n include_self = Inr res \<and>
         mset res \<subseteq># mset (zip (labels M) (matrix_values M ! i)) \<and>
         (\<not> include_self \<longrightarrow> (\<forall>p \<in> set res. fst p \<noteq> target)) \<and>
         sorted_wrt (\<lambda>p q. snd q \<le> snd p) res \<and>
         (0 \<le> top_n \<longrightarrow> int (length res) \<le> top_n)))"
proof (intro conjI)
  have key_error: "get_top_similar M target top_n include_self = Inl KeyError"
    if "target \<notin> set (labels M)"
    using that by (simp add: get_top_similar_def)
  show "(\<exists>e. get_top_similar M target top_n include_self = Inl e) \<longleftrightarrow>
      target \<notin> set (labels M)"
  proof
    assume "\<exists>e. get_top_similar M target top_n include_self = Inl e"
    then obtain e where e: "get_top_similar M target top_n include_self = Inl e" ..
    show "target \<notin> set (labels M)"
    proof
      assume "target \<in> set (labels M)"
      from get_top_similar_found [OF assms this, of top_n include_self] obtain res where
        "get_top_similar M target top_n include_self = Inr res"
        by (elim exE conjE)
      with e show False by simp
    qed
  next
    assume "target \<notin> set (labels M)"
    then show "\<exists>e. get_top_similar M target top_n include_self = Inl e"
      using key_error by (intro exI)
  qed
  show "target \<notin> set (labels M) \<longrightarrow>
      get_top_similar M target top_n include_self = Inl KeyError"
    using key_error by (intro impI)
  show "target \<in> set (labels M) \<longrightarrow>
      (\<exists>i res. index_of (labels M) target = Some i \<and>
         get_top_similar M target top_n include_self = Inr res \<and>
         mset res \<subseteq># mset (zip (labels M) (matrix_values M ! i)) \<and>
         (\<not> include_self \<longrightarrow> (\<forall>p \<in> set res. fst p \<noteq> target)) \<and>
         sorted_wrt (\<lambda>p q. snd q \<le> snd p) res \<and>
         (0 \<le> top_n \<longrightarrow> int (length res) \<le> top_n))"
    using get_top_similar_found [OF assms] by (intro impI)
qed

theorem get_top_similar_contract_witness:
  "length (labels matrix_dup) \<le> length (matrix_values matrix_dup) \<and>
   get_top_similar matrix_dup (pystr ''b'') 2 False =
     Inr [(pystr ''a'', 1 / 2), (pystr ''a'', 0)] \<and>
   get_top_similar matrix_dup (pystr ''z'') 2 False = Inl KeyError"
proof -
  have rows: "length (labels matrix_dup) \<le> length (matrix_values matrix_dup)"
    by (simp add: matrix_dup_def)
  have top: "get_top_similar matrix_dup (pystr ''b'') 2 False =
      Inr [(pystr ''a'', 1 / 2), (pystr ''a'', 0)]"
    by (simp add: get_top_similar_def row_def matrix_dup_def pystr_def slice_to_def
        sort_by_score_reverse_def)
  have "pystr ''z'' \<notin> set (labels matrix_dup)"
    by (simp add: matrix_dup_def pystr_def)
  with get_top_similar_contract [OF rows, of "pystr ''z''" 2 False]
  have "get_top_similar matrix_dup (pystr ''z'') 2 False = Inl KeyError"
    by blast
  with rows top show ?thesis by blast
qed

text \<open>
  Two inputs where the claim as stated fails. A negative \<open>top_n\<close> drops pairs from the
  end, so more than \<open>top_n\<close> pairs come back; and in a matrix with fewer rows than labels
  (as \<open>build_similarity_matrix\<close> returns for fewer embeddings than documents) a target
  that is among the labels ends in an IndexError.
\<close>

theorem get_top_similar_counterexample:
  "get_top_similar matrix_dup (pystr ''b'') (- 1) False =
     Inr [(pystr ''a'', 1 / 2), (pystr ''a'', 0)] \<and>
   \<not> int (length [(pystr ''a'', 1 / 2 :: real), (pystr ''a'', 0)]) \<le> - 1 \<and>
   pystr ''b'' \<in> set (labels matrix_short) \<and>
   get_top_similar matrix_short (pystr ''b'') 10 False = Inl IndexError"
  by (simp add: get_top_similar_def row_def matrix_dup_def matrix_short_def pystr_def
      slice_to_def sort_by_score_reverse_def)

text \<open>
  C9. For a target among the labels, \<open>get_top_similar\<close> works on the row at the first
  position where the label occurs, also when it occurs again later; without
  \<open>include_self\<close> the result is that row without every pair labelled with the target,
  sorted and cut, so no document sharing the target's identifier is in it. (When the
  matrix has no row at that position, reading it raises IndexError.)
\<close>

theorem get_top_similar_duplicate_labels:
  assumes "target \<in> set (labels M)"
  shows "\<exists>i. index_of (labels M) target = Some i \<and> i < length (labels M) \<and>
    labels M ! i = target \<and> (\<forall>j<i. labels M ! j \<noteq> target) \<and>
    (i < length (matrix_values M) \<longrightarrow>
       row M target = Inr (zip (labels M) (matrix_values M ! i)) \<and>
       get_top_similar M target top_n False =
         Inr (slice_to (sort_by_score_reverse
                (filter (\<lambda>p. fst p \<noteq> target) (zip (labels M) (matrix_values M ! i))))
              top_n) \<and>
       (\<forall>p \<in> set (slice_to (sort_by_score_reverse
                (filter (\<lambda>p. fst p \<noteq> target) (zip (labels M) (matrix_values M ! i))))
              top_n). fst p \<noteq> target)) \<and>
    (\<not> i < length (matrix_values M) \<longrightarrow>
       row M target = Inl IndexError \<and>
       get_top_similar M target top_n False = Inl IndexError)"
proof -
  from assms obtain i where i: "index_of (labels M) target = Some i"
    using index_of_None_iff [of "labels M" target] by auto
  note first = index_of_first [OF i]
  let ?kept = "filter (\<lambda>p. fst p \<noteq> target) (zip (labels M) (matrix_values M ! i))"
  let ?res = "slice_to (sort_by_score_reverse ?kept) top_n"
  have "set ?res \<subseteq> set ?kept"
    by (rule top_similar_result_props(2)) (rule refl)
  then have no_self: "\<forall>p \<in> set ?res. fst p \<noteq> target"
    by auto
  have row_ok: "row M target = Inr (zip (labels M) (matrix_values M ! i))"
    if "i < length (matrix_values M)"
    using that i by (simp add: row_def)
  have top_ok: "get_top_similar M target top_n False = Inr ?res"
    if "i < length (matrix_values M)"
    using that get_top_similar_row [OF i, of top_n False] by simp
  have row_bad: "row M target = Inl IndexError" if "\<not> i < length (matrix_values M)"
    using that i by (simp add: row_def)
  have top_bad: "get_top_similar M target top_n False = Inl IndexError"
    if "\<not> i < length (matrix_values M)"
    using that get_top_similar_row [OF i, of top_n False] by simp
  show ?thesis
  proof (intro exI conjI impI)
    show "index_of (labels M) target = Some i" by (fact i)
    show "i < length (labels M)" using first by (elim conjE)
    show "labels M ! i = target" using first by (elim conjE)
    show "\<forall>j<i. labels M ! j \<noteq> target" using first by (elim conjE)
    show "row M target = Inr (zip (labels M) (matrix_values M ! i))"
      if "i < length (matrix_values M)" using that by (rule row_ok)
    show "get_top_similar M target top_n False = Inr ?res"
      if "i < length (matrix_values M)" using that by (rule top_ok)
    show "\<forall>p \<in> set ?res. fst p \<noteq> target" by (fact no_self)
    show "row M target = Inl IndexError"
      if "\<not> i < length (matrix_values M)" using that by (rule row_bad)
    show "get_top_similar M target top_n False = Inl IndexError"
      if "\<not> i < length (matrix_values M)" using that by (rule top_bad)
  qed
qed

theorem get_top_similar_duplicate_labels_witness:
  "pystr ''a'' \<in> set (labels matrix_dup) \<and>
   index_of (labels matrix_dup) (pystr ''a'') = Some 0 \<and>
   get_top_similar matrix_dup (pystr ''a'') 10 False =
     Inr [(pystr ''c'', 3 / 4), (pystr ''b'', 1 / 2)]"
proof -
  have mem: "pystr ''a'' \<in> set (labels matrix_dup)"
    by (simp add: matrix_dup_def)
  have first: "index_of (labels matrix_dup) (pystr ''a'') = Some 0"
    by (simp add: matrix_dup_def)
  have row0: "(0::nat) < length (matrix_values matrix_dup)"
    by (simp add: matrix_dup_def)
  from get_top_similar_duplicate_labels [OF mem, of 10]
  obtain i where a: "index_of (labels matrix_dup) (pystr ''a'') = Some i"
    and b: "i < length (matrix_values matrix_dup) \<longrightarrow>
       row matrix_dup (pystr ''a'') =
         Inr (zip (labels matrix_dup) (matrix_values matrix_dup ! i)) \<and>
       get_top_similar matrix_dup (pystr ''a'') 10 False =
         Inr (slice_to (sort_by_score_reverse
                (filter (\<lambda>p. fst p \<noteq> pystr ''a'')
                  (zip (labels matrix_dup) (matrix_values matrix_dup ! i)))) 10) \<and>
       (\<forall>p \<in> set (slice_to (sort_by_score_reverse
                (filter (\<lambda>p. fst p \<noteq> pystr ''a'')
                  (zip (labels matrix_dup) (matrix_values matrix_dup ! i)))) 10).
          fst p \<noteq> pystr ''a'')"
    by (elim exE conjE)
  from a first have "i = 0" by simp
  note b [unfolded this, THEN mp, OF row0]
  then have "get_top_similar matrix_dup (pystr ''a'') 10 False =
      Inr (slice_to (sort_by_score_reverse
        (filter (\<lambda>p. fst p \<noteq> pystr ''a'')
          (zip (labels matrix_dup) (matrix_values matrix_dup ! 0)))) 10)"
    by (elim conjE)
  also have "\<dots> = Inr [(pystr ''c'', 3 / 4), (pystr ''b'', 1 / 2)]"
    by (simp add: matrix_dup_def pystr_def slice_to_def sort_by_score_reverse_def)
  finally show ?thesis
    using mem first by blast
qed

section \<open>Fitted once, fitted for good\<close>

lemma fit_Inr_fitted: "fit self documents = Inr self' \<Longrightarrow> fitted self'"
  by (auto simp add: fit_def Let_def split: if_splits)

lemma fit_Inl_iff: "(\<exists>e. fit self documents = Inl e) \<longleftrightarrow> documents = []"
  by (simp add: fit_def Let_def)

lemma apply_operation_fitted:
  assumes "fitted self"
  shows "fitted (apply_operation self operation)"
proof (cases operation)
  case (Fit documents)
  with assms show ?thesis
    by (cases "fit self documents") (simp_all add: fit_Inr_fitted)
next
  case (Transform documents)
  with assms show ?thesis by simp
next
  case (FitTransform documents)
  with assms show ?thesis
    by (cases "fit self documents") (simp_all add: fit_transform_def fit_Inr_fitted)
qed

lemma run_fitted: "fitted self \<Longrightarrow> fitted (run self operations)"
proof (induction operations arbitrary: self)
  case Nil
  then show ?case by simp
next
  case (Cons operation operations)
  from Cons.prems have "fitted (apply_operation self operation)"
    by (rule apply_operation_fitted)
  then have "fitted (run (apply_operation self operation) operations)"
    by (rule Cons.IH)
  then show ?case by simp
qed

lemma apply_operation_unchanged: "\<not> refits operation \<Longrightarrow> apply_operation self operation = self"
  by (cases operation) (simp_all add: fit_def fit_transform_def)

lemma run_unchanged:
  "\<forall>operation \<in> set operations. \<not> refits operation \<Longrightarrow> run self operations = self"
  by (induction operations arbitrary: self) (simp_all add: apply_operation_unchanged)

lemma fit_state_from_documents:
  assumes "fit self documents = Inr self'" and "fit other documents = Inr other'"
  shows "vocabulary self' = vocabulary other' \<and> idf self' = idf other' \<and>
    fitted self' = fitted other'"
  using assms by (auto simp add: fit_def Let_def split: if_splits)

text \<open>
  C8, as amended. After one successful \<open>fit\<close>, no later sequence of calls (\<open>fit\<close>,
  \<open>transform\<close>, \<open>fit_transform\<close>, returning or raising) moves the instance back to unfit;
  calls that do not fit again on at least one document leave the whole state as it is;
  and a later successful \<open>fit\<close> sets the vocabulary and the IDF list to what its own
  documents give, whatever the state was before.
\<close>

theorem fitted_is_stable:
  assumes "fit self0 documents = Inr self"
  shows "fitted (run self operations) \<and>
    ((\<forall>operation \<in> set operations. \<not> refits operation) \<longrightarrow> run self operations = self) \<and>
    (\<forall>documents' self'. fit (run self operations) documents' = Inr self' \<longrightarrow>
       (\<exists>fresh. fit new_model documents' = Inr fresh \<and>
          vocabulary self' = vocabulary fresh \<and> idf self' = idf fresh))"
proof (intro conjI allI impI)
  from assms have "fitted self" by (rule fit_Inr_fitted)
  then show "fitted (run self operations)" by (rule run_fitted)
next
  assume "\<forall>operation \<in> set operations. \<not> refits operation"
  then show "run self operations = self" by (rule run_unchanged)
next
  fix documents' self'
  assume refit: "fit (run self operations) documents' = Inr self'"
  then have "documents' \<noteq> []"
    using fit_Inl_iff [of "run self operations" documents'] by auto
  then obtain fresh where fresh: "fit new_model documents' = Inr fresh"
    by (simp add: fit_def Let_def)
  from refit fresh have "vocabulary self' = vocabulary fresh \<and> idf self' = idf fresh"
    using fit_state_from_documents by blast
  with fresh show "\<exists>fresh. fit new_model documents' = Inr fresh \<and>
      vocabulary self' = vocabulary fresh \<and> idf self' = idf fresh"
    by blast
qed

lemma fit_doc_a:
  "fit self [doc_a] = Inr (self\<lparr>vocabulary := [(pystr ''x'', 0)], idf := [1], fitted := True\<rparr>)"
  by (simp add: fit_def document_frequency_def counter_incr_def counter_get_def doc_a_def pystr_def)

lemma fit_doc_b:
  "fit self [doc_b] =
     Inr (self\<lparr>vocabulary := [(pystr ''x'', 0), (pystr ''y'', 1)], idf := [1, 1], fitted := True\<rparr>)"
  by (simp add: fit_def document_frequency_def counter_incr_def counter_get_def doc_b_def pystr_def)

theorem fitted_is_stable_witness:
  "fit new_model [doc_a] =
     Inr \<lparr>vocabulary = [(pystr ''x'', 0)], idf = [1], fitted = True\<rparr> \<and>
   fitted (run \<lparr>vocabulary = [(pystr ''x'', 0)], idf = [1], fitted = True\<rparr>
     [Transform [doc_b], Fit [], FitTransform [doc_b], Fit []])"
proof -
  have start: "fit new_model [doc_a] =
      Inr \<lparr>vocabulary = [(pystr ''x'', 0)], idf = [1], fitted = True\<rparr>"
    by (simp add: fit_doc_a new_model_def)
  from fitted_is_stable [OF start, of "[Transform [doc_b], Fit [], FitTransform [doc_b], Fit []]"]
  have "fitted (run \<lparr>vocabulary = [(pystr ''x'', 0)], idf = [1], fitted = True\<rparr>
     [Transform [doc_b], Fit [], FitTransform [doc_b], Fit []])"
    by (elim conjE)
  with start show ?thesis by (intro conjI)
qed

text \<open>
  A second \<open>fit\<close> on other documents replaces the fitted vocabulary and IDF list.
\<close>

theorem refit_replaces_state_counterexample:
  "fit new_model [doc_a] =
     Inr \<lparr>vocabulary = [(pystr ''x'', 0)], idf = [1], fitted = True\<rparr> \<and>
   fit \<lparr>vocabulary = [(pystr ''x'', 0)], idf = [1], fitted = True\<rparr> [doc_b] =
     Inr \<lparr>vocabulary = [(pystr ''x'', 0), (pystr ''y'', 1)], idf = [1, 1], fitted = True\<rparr> \<and>
   [(pystr ''x'', 0 :: nat), (pystr ''y'', 1)] \<noteq> [(pystr ''x'', 0)] \<and>
   [1, 1 :: real] \<noteq> [1]"
  by (simp add: fit_doc_a fit_doc_b new_model_def)

section \<open>Parsing malformed lines\<close>

lemmas parser_defs =
  parse_line_def strip_def strip_chars_def is_space_def quote_like_def pystr_def
  extract_bracket_content_def find_char_def normalise_tag_def build_identifier_def
  split_whitespace_def Let_def

lemma parse_line_first_second:
  "parse_line True (pystr ''['first','second'].txt'') ([], {}) =
     ([doc_first_second], {pystr ''first_second.txt''})"
  by (simp add: parser_defs doc_first_second_def)

lemma parse_line_first_second_third:
  "parse_line True (pystr ''['first,'second','third'].rtf'')
     ([doc_first_second], {pystr ''first_second.txt''}) =
     ([doc_first_second, doc_first_second_third],
      {pystr ''first_second_third.rtf'', pystr ''first_second.txt''})"
  by (simp add: parser_defs doc_first_second_third_def)

lemma parse_line_lone:
  "parse_line True (pystr ''[' lone '] .pdf'')
     ([doc_first_second, doc_first_second_third],
      {pystr ''first_second_third.rtf'', pystr ''first_second.txt''}) =
     ([doc_first_second, doc_first_second_third, doc_lone],
      {pystr ''lone.pdf'', pystr ''first_second_third.rtf'', pystr ''first_second.txt''})"
  by (simp add: parser_defs doc_lone_def)

lemma parse_line_no_brackets:
  "parse_line drop_duplicates (pystr ''no brackets here'') state = state"
  by (simp add: parser_defs)

lemma parse_line_blank: "parse_line drop_duplicates (pystr ''   '') state = state"
  by (simp add: parser_defs)

text \<open>
  C6. The five lines of the malformed-line example give exactly three documents: the
  first with identifier \<open>first_second.txt\<close>, the second with the tag \<open>third\<close> among its
  tags, the third with the tag \<open>lone\<close>. The line without brackets and the blank line leave
  the state of the loop as it is, wherever they stand, so they yield no document and
  parsing goes on.
\<close>

theorem parse_malformed_lines:
  "parse_contents_lines malformed_lines True =
     [doc_first_second, doc_first_second_third, doc_lone] \<and>
   length (parse_contents_lines malformed_lines True) = 3 \<and>
   identifier (parse_contents_lines malformed_lines True ! 0) = pystr ''first_second.txt'' \<and>
   pystr ''third'' \<in> set (tags (parse_contents_lines malformed_lines True ! 1)) \<and>
   pystr ''lone'' \<in> set (tags (parse_contents_lines malformed_lines True ! 2)) \<and>
   parse_line True (pystr ''no brackets here'') state = state \<and>
   parse_line True (pystr ''   '') state = state \<and>
   parse_contents_lines [pystr ''no brackets here'', pystr ''   ''] True = []"
proof -
  have parsed: "parse_contents_lines malformed_lines True =
      [doc_first_second, doc_first_second_third, doc_lone]"
    by (simp add: parse_contents_lines_def malformed_lines_def parse_line_first_second
        parse_line_first_second_third parse_line_lone parse_line_no_brackets parse_line_blank)
  have skipped: "parse_contents_lines [pystr ''no brackets here'', pystr ''   ''] True = []"
    by (simp add: parse_contents_lines_def parse_line_no_brackets parse_line_blank)
  have "identifier doc_first_second = pystr ''first_second.txt''"
    by (simp add: doc_first_second_def)
  moreover have "pystr ''third'' \<in> set (tags doc_first_second_third)"
    by (simp add: doc_first_second_third_def)
  moreover have "pystr ''lone'' \<in> set (tags doc_lone)"
    by (simp add: doc_lone_def)
  ultimately show ?thesis
    by (simp add: parsed skipped parse_line_no_brackets parse_line_blank)
qed

section \<open>Counters\<close>

lemma counter_get_incr:
  "counter_get (counter_incr k c) t = counter_get c t + (if t = k then 1 else 0)"
  by (simp add: counter_get_def counter_incr_def AList.update_conv')

lemma keys_counter_incr: "fst ` set (counter_incr k c) = insert k (fst ` set c)"
  using AList.dom_update [of k "counter_get c k + 1" c] by (simp add: counter_incr_def)

lemma distinct_counter_incr:
  "distinct (map fst c) \<Longrightarrow> distinct (map fst (counter_incr k c))"
  by (simp add: counter_incr_def AList.distinct_update)

lemma counter_get_fold_incr:
  "counter_get (fold counter_incr xs c) t = counter_get c t + count_list xs t"
  by (induction xs arbitrary: c) (simp_all add: counter_get_incr)

lemma keys_fold_incr:
  "fst ` set (fold counter_incr xs c) = fst ` set c \<union> set xs"
  by (induction xs arbitrary: c) (simp_all add: keys_counter_incr)

lemma distinct_fold_incr:
  "distinct (map fst c) \<Longrightarrow> distinct (map fst (fold counter_incr xs c))"
  by (induction xs arbitrary: c) (simp_all add: distinct_counter_incr)

lemma sum_values_incr: "sum_list (map snd (counter_incr k c)) = Suc (sum_list (map snd c))"
  unfolding counter_incr_def by (induction c) (auto simp add: counter_get_def)

lemma sum_values_fold_incr:
  "sum_list (map snd (fold counter_incr xs c)) = sum_list (map snd c) + length xs"
  by (induction xs arbitrary: c) (simp_all add: sum_values_incr)

lemma map_of_Counter:
  "map_of (Counter xs) t = (if t \<in> set xs then Some (count_list xs t) else None)"
proof (cases "t \<in> set xs")
  case False
  then have "t \<notin> fst ` set (Counter xs)"
    using keys_fold_incr [of xs "[]"] by (simp add: Counter_def)
  with False show ?thesis by (simp add: map_of_eq_None_iff)
next
  case True
  then have "t \<in> fst ` set (Counter xs)"
    using keys_fold_incr [of xs "[]"] by (simp add: Counter_def)
  then obtain n where n: "map_of (Counter xs) t = Some n"
    by (metis map_of_eq_None_iff not_Some_eq)
  then have "counter_get (Counter xs) t = n" by (simp add: counter_get_def)
  moreover have "counter_get (Counter xs) t = count_list xs t"
    using counter_get_fold_incr [of xs "[]" t] by (simp add: Counter_def counter_get_def)
  ultimately show ?thesis using True n by simp
qed

lemma distinct_Counter: "distinct (map fst (Counter xs))"
  by (simp add: Counter_def distinct_fold_incr)

lemma sum_values_Counter: "sum_list (map snd (Counter xs)) = length xs"
  by (simp add: Counter_def sum_values_fold_incr)

section \<open>Document frequencies and the sorted vocabulary\<close>

lemma count_list_remdups: "count_list (remdups xs) t = (if t \<in> set xs then 1 else 0)"
  by (induction xs) auto

lemma document_frequency_fold:
  "counter_get (fold (\<lambda>document df. fold counter_incr (remdups (tags document)) df) D c) t =
     counter_get c t + df_count D t \<and>
   fst ` set (fold (\<lambda>document df. fold counter_incr (remdups (tags document)) df) D c) =
     fst ` set c \<union> (\<Union>document \<in> set D. set (tags document)) \<and>
   (distinct (map fst c) \<longrightarrow>
     distinct (map fst (fold (\<lambda>document df. fold counter_incr (remdups (tags document)) df) D c)))"
proof (induction D arbitrary: c)
  case Nil
  then show ?case by (simp add: df_count_def)
next
  case (Cons d D)
  let ?c = "fold counter_incr (remdups (tags d)) c"
  have "counter_get ?c t = counter_get c t + (if t \<in> set (tags d) then 1 else 0)"
    by (simp only: counter_get_fold_incr count_list_remdups)
  moreover have "fst ` set ?c = fst ` set c \<union> set (tags d)"
    by (simp only: keys_fold_incr set_remdups)
  moreover have "distinct (map fst c) \<longrightarrow> distinct (map fst ?c)"
    by (simp add: distinct_fold_incr)
  ultimately show ?case
    using Cons.IH [of ?c] by (auto simp add: df_count_def)
qed

lemma counter_get_document_frequency:
  "counter_get (document_frequency D) t = df_count D t"
  using document_frequency_fold [of D "[]" t]
  by (simp add: document_frequency_def counter_get_def)

lemma keys_document_frequency:
  "fst ` set (document_frequency D) = (\<Union>document \<in> set D. set (tags document))"
  using document_frequency_fold [of D "[]"] by (simp add: document_frequency_def)

lemma distinct_document_frequency: "distinct (map fst (document_frequency D))"
  using document_frequency_fold [of D "[]"] by (simp add: document_frequency_def)

lemma sort_keys_document_frequency: "sort (map fst (document_frequency D)) = sorted_tags D"
proof -
  have "sorted_tags D = sorted_list_of_set (set (map fst (document_frequency D)))"
    by (simp only: sorted_tags_def keys_document_frequency set_map)
  also have "\<dots> = sort (remdups (map fst (document_frequency D)))"
    by (rule sorted_list_of_set_sort_remdups)
  also have "\<dots> = sort (map fst (document_frequency D))"
    by (simp only: distinct_remdups_id [OF distinct_document_frequency])
  finally show ?thesis by simp
qed

lemma sorted_tags_props:
  "sorted (sorted_tags D)" "distinct (sorted_tags D)"
  "set (sorted_tags D) = (\<Union>document \<in> set D. set (tags document))"
  by (simp_all add: sorted_tags_def)

section \<open>The vocabulary as built by \<open>fit\<close>\<close>

lemma update_new_key: "k \<notin> fst ` set al \<Longrightarrow> AList.update k v al = al @ [(k, v)]"
  by (induction al) auto

lemma build_vocabulary:
  assumes "distinct ts" and "set ts \<inter> fst ` set voc = {}"
  shows "fold (\<lambda>(index, tag) voc. AList.update tag index voc) (enumerate n ts) voc =
    voc @ zip ts [n..<n + length ts]"
  using assms
proof (induction ts arbitrary: n voc)
  case Nil
  then show ?case by simp
next
  case (Cons t ts)
  from Cons.prems have new: "t \<notin> fst ` set voc" by auto
  from Cons.prems have "distinct ts" and "set ts \<inter> fst ` set (voc @ [(t, n)]) = {}"
    by auto
  then have "fold (\<lambda>(index, tag) voc. AList.update tag index voc) (enumerate (Suc n) ts)
      (voc @ [(t, n)]) = (voc @ [(t, n)]) @ zip ts [Suc n..<Suc n + length ts]"
    by (rule Cons.IH)
  then show ?case
    by (simp add: update_new_key [OF new] upt_conv_Cons del: upt_Suc)
qed

lemma fit_Inr:
  assumes "D \<noteq> []"
  shows "fit self D =
    Inr (self\<lparr>vocabulary := zip (sorted_tags D) [0..<length (sorted_tags D)],
              idf := map (IDF D) (sorted_tags D),
              fitted := True\<rparr>)"
proof -
  have "fold (\<lambda>(index, tag) voc. AList.update tag index voc) (enumerate 0 (sorted_tags D)) [] =
      [] @ zip (sorted_tags D) [0..<0 + length (sorted_tags D)]"
    by (rule build_vocabulary) (simp_all add: sorted_tags_props)
  with assms show ?thesis
    by (simp add: fit_def Let_def sort_keys_document_frequency counter_get_document_frequency
        IDF_def)
qed

section \<open>Fitting is independent of the order of the documents\<close>

lemma sorted_tags_mset: "mset D1 = mset D2 \<Longrightarrow> sorted_tags D1 = sorted_tags D2"
  using mset_eq_setD [of D1 D2] by (simp add: sorted_tags_def)

lemma df_count_mset:
  assumes "mset D1 = mset D2"
  shows "df_count D1 tag = df_count D2 tag"
proof -
  let ?P = "\<lambda>document. tag \<in> set (tags document)"
  have "mset (filter ?P D1) = mset (filter ?P D2)"
    by (simp only: mset_filter assms)
  then have "length (filter ?P D1) = length (filter ?P D2)"
    by (rule mset_eq_length)
  then show ?thesis
    by (simp only: df_count_def)
qed

lemma IDF_mset:
  assumes "mset D1 = mset D2"
  shows "IDF D1 = IDF D2"
proof
  fix tag
  have "length D1 = length D2"
    using assms by (rule mset_eq_length)
  moreover have "df_count D1 tag = df_count D2 tag"
    using assms by (rule df_count_mset)
  ultimately show "IDF D1 tag = IDF D2 tag"
    by (simp only: IDF_def)
qed

text \<open>
  C7. For two document sequences that are permutations of each other (and not empty),
  \<open>fit\<close> succeeds on both, from whatever instances, and leaves the same vocabulary
  and the same IDF list. The keys of the vocabulary are the tags observed, in strictly
  ascending lexicographic order, and their indices are \<open>0, 1, 2, \<dots>\<close> in that order.
\<close>

theorem fit_order_independent:
  assumes "D1 \<noteq> []" and "mset D1 = mset D2"
  shows "\<exists>m1 m2. fit self1 D1 = Inr m1 \<and> fit self2 D2 = Inr m2 \<and>
    vocabulary m1 = vocabulary m2 \<and> idf m1 = idf m2 \<and>
    sorted (map fst (vocabulary m1)) \<and> distinct (map fst (vocabulary m1)) \<and>
    set (map fst (vocabulary m1)) = (\<Union>document \<in> set D1. set (tags document)) \<and>
    map snd (vocabulary m1) = [0..<length (vocabulary m1)]"
proof -
  from assms have "D2 \<noteq> []" by auto
  let ?m = "\<lambda>self D. self\<lparr>vocabulary := zip (sorted_tags D) [0..<length (sorted_tags D)],
              idf := map (IDF D) (sorted_tags D), fitted := True\<rparr>"
  have fit1: "fit self1 D1 = Inr (?m self1 D1)"
    using \<open>D1 \<noteq> []\<close> by (rule fit_Inr)
  have fit2: "fit self2 D2 = Inr (?m self2 D2)"
    using \<open>D2 \<noteq> []\<close> by (rule fit_Inr)
  have same_voc: "vocabulary (?m self1 D1) = vocabulary (?m self2 D2)"
    using sorted_tags_mset [OF assms(2)] by simp
  have same_idf: "idf (?m self1 D1) = idf (?m self2 D2)"
    using sorted_tags_mset [OF assms(2)] IDF_mset [OF assms(2)] by simp
  have keys: "map fst (vocabulary (?m self1 D1)) = sorted_tags D1"
    by simp
  have indices: "map snd (vocabulary (?m self1 D1)) = [0..<length (vocabulary (?m self1 D1))]"
    by simp
  have "sorted (map fst (vocabulary (?m self1 D1)))"
    and "distinct (map fst (vocabulary (?m self1 D1)))"
    and "set (map fst (vocabulary (?m self1 D1))) = (\<Union>document \<in> set D1. set (tags document))"
    unfolding keys by (rule sorted_tags_props)+
  with fit1 fit2 same_voc same_idf indices show ?thesis
    by (intro exI conjI)
qed

lemma fit_doc_a_doc_b:
  "fit self [doc_a, doc_b] =
     Inr (self\<lparr>vocabulary := [(pystr ''x'', 0), (pystr ''y'', 1)],
               idf := [1, ln (3 / 2) + 1], fitted := True\<rparr>)"
  by (simp add: fit_def document_frequency_def counter_incr_def counter_get_def doc_a_def
      doc_b_def pystr_def)

lemma fit_doc_b_doc_a:
  "fit self [doc_b, doc_a] =
     Inr (self\<lparr>vocabulary := [(pystr ''x'', 0), (pystr ''y'', 1)],
               idf := [1, ln (3 / 2) + 1], fitted := True\<rparr>)"
  by (simp add: fit_def document_frequency_def counter_incr_def counter_get_def doc_a_def
      doc_b_def pystr_def)

theorem fit_order_independent_witness:
  "[doc_a, doc_b] \<noteq> [] \<and> mset [doc_a, doc_b] = mset [doc_b, doc_a] \<and>
   fit new_model [doc_a, doc_b] =
     Inr \<lparr>vocabulary = [(pystr ''x'', 0), (pystr ''y'', 1)], idf = [1, ln (3 / 2) + 1],
          fitted = True\<rparr> \<and>
   fit new_model [doc_b, doc_a] =
     Inr \<lparr>vocabulary = [(pystr ''x'', 0), (pystr ''y'', 1)], idf = [1, ln (3 / 2) + 1],
          fitted = True\<rparr>"
proof -
  have nonempty: "[doc_a, doc_b] \<noteq> []" by simp
  have perm: "mset [doc_a, doc_b] = mset [doc_b, doc_a]" by simp
  note fit_order_independent [OF nonempty perm, of new_model new_model]
  then obtain m1 m2 where "fit new_model [doc_a, doc_b] = Inr m1"
    and "fit new_model [doc_b, doc_a] = Inr m2" and "vocabulary m1 = vocabulary m2"
    by (elim exE conjE)
  moreover have "fit new_model [doc_a, doc_b] =
     Inr \<lparr>vocabulary = [(pystr ''x'', 0), (pystr ''y'', 1)], idf = [1, ln (3 / 2) + 1],
          fitted = True\<rparr>"
    by (simp add: fit_doc_a_doc_b new_model_def)
  moreover have "fit new_model [doc_b, doc_a] =
     Inr \<lparr>vocabulary = [(pystr ''x'', 0), (pystr ''y'', 1)], idf = [1, ln (3 / 2) + 1],
          fitted = True\<rparr>"
    by (simp add: fit_doc_b_doc_a new_model_def)
  ultimately show ?thesis
    using nonempty perm by (intro conjI)
qed

section \<open>The vectors of \<open>transform\<close>\<close>

lemma map_of_vocabulary_Some:
  assumes "distinct st" and "map_of (zip st [0..<length st]) tag = Some index"
  shows "index < length st \<and> st ! index = tag"
proof -
  from assms(2) have "(tag, index) \<in> set (zip st [0..<length st])"
    by (rule map_of_SomeD)
  then obtain i where "i < length st" and "st ! i = tag" and "[0..<length st] ! i = index"
    by (auto simp add: in_set_zip)
  then show ?thesis by simp
qed

lemma keys_vocabulary: "fst ` set (zip st [0..<length st]) = set st"
proof -
  have "set (map fst (zip st [0..<length st])) = set st" by simp
  then show ?thesis by (simp only: set_map)
qed


lemma map_nth_upt: "map (\<lambda>i. f (xs ! i)) [0..<length xs] = map f xs"
  by (rule nth_equalityI) simp_all

lemma fill_vector_result:
  assumes "vocabulary self = zip st [0..<length st]" and "distinct st"
    and "length (idf self) = length st" and "length vector = length st"
    and "distinct (map fst counts)"
  shows "fill_vector self total' counts vector =
    Inr (map (\<lambda>i. case map_of counts (st ! i) of
                     None \<Rightarrow> vector ! i
                   | Some c \<Rightarrow> real c / real total' * idf self ! i) [0..<length st])"
  using assms(4,5)
proof (induction counts arbitrary: vector)
  case Nil
  then show ?case using map_nth [of vector] by simp
next
  case (Cons entry rest)
  obtain tag c where entry: "entry = (tag, c)" by (cases entry)
  from Cons.prems entry have fresh: "map_of rest tag = None" and rest: "distinct (map fst rest)"
    by (simp_all add: map_of_eq_None_iff)
  show ?case
  proof (cases "map_of (vocabulary self) tag")
    case None
    then have "tag \<notin> set st"
      using assms(1) by (simp add: map_of_eq_None_iff keys_vocabulary)
    then have other: "st ! i \<noteq> tag" if "i < length st" for i
      using that nth_mem by metis
    have "fill_vector self total' (entry # rest) vector = fill_vector self total' rest vector"
      using None entry by simp
    also have "\<dots> = Inr (map (\<lambda>i. case map_of rest (st ! i) of
                     None \<Rightarrow> vector ! i
                   | Some c \<Rightarrow> real c / real total' * idf self ! i) [0..<length st])"
      using Cons.prems(1) rest by (rule Cons.IH)
    also have "\<dots> = Inr (map (\<lambda>i. case map_of (entry # rest) (st ! i) of
                     None \<Rightarrow> vector ! i
                   | Some c \<Rightarrow> real c / real total' * idf self ! i) [0..<length st])"
      using other entry by simp
    finally show ?thesis .
  next
    case (Some index)
    then have index: "index < length st" "st ! index = tag"
      using map_of_vocabulary_Some [OF assms(2), of tag index] assms(1) by simp_all
    let ?w = "real c / real total' * idf self ! index"
    let ?vector = "vector[index := ?w]"
    have other: "st ! i \<noteq> tag" if "i < length st" "i \<noteq> index" for i
      using that index assms(2) by (auto simp add: nth_eq_iff_index_eq)
    have "fill_vector self total' (entry # rest) vector = fill_vector self total' rest ?vector"
      using Some entry index assms(3) Cons.prems(1) by simp
    also have "\<dots> = Inr (map (\<lambda>i. case map_of rest (st ! i) of
                     None \<Rightarrow> ?vector ! i
                   | Some c \<Rightarrow> real c / real total' * idf self ! i) [0..<length st])"
      using Cons.prems(1) rest by (intro Cons.IH) simp_all
    also have "\<dots> = Inr (map (\<lambda>i. case map_of (entry # rest) (st ! i) of
                     None \<Rightarrow> vector ! i
                   | Some c \<Rightarrow> real c / real total' * idf self ! i) [0..<length st])"
    proof -
      have "(case map_of rest (st ! i) of
               None \<Rightarrow> ?vector ! i
             | Some c \<Rightarrow> real c / real total' * idf self ! i) =
            (case map_of (entry # rest) (st ! i) of
               None \<Rightarrow> vector ! i
             | Some c \<Rightarrow> real c / real total' * idf self ! i)"
        if "i < length st" for i
      proof (cases "i = index")
        case True
        with index fresh entry Cons.prems(1) show ?thesis by simp
      next
        case False
        then have "index \<noteq> i" by simp
        with other [OF that False] entry show ?thesis by (simp split: option.split)
      qed
      then show ?thesis by simp
    qed
    finally show ?thesis .
  qed
qed

lemma transform_document_fitted:
  assumes "vocabulary self = zip st [0..<length st]" and "distinct st"
    and "idf self = map weight st"
  shows "transform_document self document =
    Inr (map (\<lambda>tag. if tag \<in> set (tags document)
                     then real (count_list (tags document) tag) / real (total_count document)
                          * weight tag
                     else 0) st)"
proof -
  let ?counts = "Counter (tags document)"
  let ?entry = "\<lambda>tag. if tag \<in> set (tags document)
                     then real (count_list (tags document) tag) / real (total_count document)
                          * weight tag
                     else 0"
  have total: "(if sum_list (map snd ?counts) = 0 then 1 else sum_list (map snd ?counts)) =
      total_count document"
    by (simp add: sum_values_Counter total_count_def)
  have "fill_vector self (total_count document) ?counts (replicate (length st) 0) =
      Inr (map (\<lambda>i. case map_of ?counts (st ! i) of
                       None \<Rightarrow> replicate (length st) 0 ! i
                     | Some c \<Rightarrow> real c / real (total_count document) * idf self ! i)
             [0..<length st])"
    using assms by (intro fill_vector_result) (simp_all add: distinct_Counter)
  also have "\<dots> = Inr (map (\<lambda>i. ?entry (st ! i)) [0..<length st])"
    using assms(3) by (simp add: map_of_Counter)
  also have "\<dots> = Inr (map ?entry st)"
    using map_nth_upt [of ?entry st] by simp
  finally show ?thesis
    unfolding transform_document_def Let_def total assms(1) by simp
qed

lemma fit_Inr_nonempty: "fit self0 D = Inr self \<Longrightarrow> D \<noteq> []"
  by (auto simp add: fit_def)

lemma transform_fitted:
  assumes "fit self0 D = Inr self"
  shows "transform self documents =
    Inr (map (\<lambda>document.
           map (\<lambda>tag. if tag \<in> set (tags document)
                       then real (count_list (tags document) tag) / real (total_count document)
                            * IDF D tag
                       else 0) (sorted_tags D)) documents)"
    and "vocabulary self = zip (sorted_tags D) [0..<length (sorted_tags D)]"
proof -
  from assms have "D \<noteq> []" by (rule fit_Inr_nonempty)
  from fit_Inr [OF this, of self0] assms
  have self: "self = self0\<lparr>vocabulary := zip (sorted_tags D) [0..<length (sorted_tags D)],
      idf := map (IDF D) (sorted_tags D), fitted := True\<rparr>"
    by simp
  then show voc: "vocabulary self = zip (sorted_tags D) [0..<length (sorted_tags D)]"
    by simp
  from self have weights: "idf self = map (IDF D) (sorted_tags D)" and "fitted self"
    by simp_all
  have "collect (transform_document self) documents =
    Inr (map (\<lambda>document.
           map (\<lambda>tag. if tag \<in> set (tags document)
                       then real (count_list (tags document) tag) / real (total_count document)
                            * IDF D tag
                       else 0) (sorted_tags D)) documents)"
    by (rule collect_total) (rule transform_document_fitted [OF voc sorted_tags_props(2) weights])
  with \<open>fitted self\<close> show "transform self documents =
    Inr (map (\<lambda>document.
           map (\<lambda>tag. if tag \<in> set (tags document)
                       then real (count_list (tags document) tag) / real (total_count document)
                            * IDF D tag
                       else 0) (sorted_tags D)) documents)"
    by (simp add: transform_def)
qed




section \<open>TF-IDF vectors have no negative entry\<close>

lemma IDF_ge_one: "1 \<le> IDF D tag"
proof -
  have "df_count D tag \<le> length D"
    by (simp add: df_count_def)
  then have "1 \<le> (1 + real (length D)) / (1 + real (df_count D tag))"
    by (simp add: le_divide_eq)
  then have "0 \<le> ln ((1 + real (length D)) / (1 + real (df_count D tag)))"
    by (rule ln_ge_zero)
  then show ?thesis
    by (simp add: IDF_def)
qed

lemma transform_nonneg:
  assumes "fit self0 D = Inr self" and "transform self documents = Inr vectors"
  shows "\<forall>vector \<in> set vectors. \<forall>x \<in> set vector. 0 \<le> x"
proof (intro ballI)
  let ?entry = "\<lambda>document tag. if tag \<in> set (tags document)
       then real (count_list (tags document) tag) / real (total_count document) * IDF D tag
       else 0"
  fix vector x
  assume "vector \<in> set vectors" and "x \<in> set vector"
  have "vectors = map (\<lambda>document. map (?entry document) (sorted_tags D)) documents"
    using transform_fitted(1) [OF assms(1), of documents] assms(2) by simp
  with \<open>vector \<in> set vectors\<close> obtain document
    where "vector = map (?entry document) (sorted_tags D)"
    by auto
  with \<open>x \<in> set vector\<close> have "x \<in> ?entry document ` set (sorted_tags D)"
    by (simp only: set_map)
  then obtain tag where "x = ?entry document tag"
    by (elim imageE)
  then show "0 \<le> x"
    using IDF_ge_one [of D tag] by simp
qed

section \<open>Cosine similarity: symmetry and sign\<close>

lemma dot_product_commute: "dot_product a b = dot_product b a"
proof (induction a arbitrary: b)
  case Nil
  then show ?case by (simp add: dot_product_def)
next
  case (Cons x xs)
  then show ?case by (cases b) (simp_all add: dot_product_def mult.commute)
qed

lemma cosine_commute: "cosine a b = cosine b a"
  by (auto simp add: cosine_def dot_product_commute [of a b] mult.commute)

lemma sum_squares_nonneg: "0 \<le> sum_list (map (\<lambda>x. x * x) (a :: real list))"
  by (induction a) simp_all

lemma vec_norm_nonneg: "0 \<le> vec_norm a"
  by (simp add: vec_norm_def sum_squares_nonneg)

lemma dot_product_nonneg:
  "\<forall>x \<in> set a. 0 \<le> x \<Longrightarrow> \<forall>y \<in> set b. 0 \<le> y \<Longrightarrow> 0 \<le> dot_product a b"
proof (induction a arbitrary: b)
  case Nil
  then show ?case by (simp add: dot_product_def)
next
  case (Cons x xs)
  show ?case
  proof (cases b)
    case Nil
    then show ?thesis by (simp add: dot_product_def)
  next
    case (Cons y ys)
    with Cons.prems have "0 \<le> dot_product xs ys" "0 \<le> x * y"
      by (simp_all add: Cons.IH)
    with Cons show ?thesis by (simp add: dot_product_def)
  qed
qed

lemma cosine_nonneg:
  assumes "\<forall>x \<in> set a. 0 \<le> x" and "\<forall>y \<in> set b. 0 \<le> y"
  shows "0 \<le> cosine a b"
proof -
  have "0 \<le> dot_product a b"
    using assms by (rule dot_product_nonneg)
  moreover have "0 \<le> vec_norm a * vec_norm b"
    using vec_norm_nonneg [of a] vec_norm_nonneg [of b] by simp
  ultimately show ?thesis
    by (simp add: cosine_def)
qed

section \<open>Rounding keeps the sign\<close>

lemma round_half_even_nonneg:
  assumes "0 \<le> y"
  shows "0 \<le> round_half_even y"
proof -
  from assms have "0 \<le> \<lfloor>y\<rfloor>" by simp
  then show ?thesis
    by (auto simp add: round_half_even_def Let_def)
qed

lemma py_round_nonneg:
  assumes "0 \<le> x"
  shows "0 \<le> py_round x d"
proof (cases "0 \<le> d")
  case True
  from assms have "0 \<le> round_half_even (x * 10 ^ nat d)"
    by (intro round_half_even_nonneg) simp
  with True show ?thesis by (simp add: py_round_def)
next
  case False
  from assms have "0 \<le> round_half_even (x / 10 ^ nat (- d))"
    by (intro round_half_even_nonneg) simp
  with False show ?thesis by (simp add: py_round_def)
qed

lemma stored_value_nonneg: "0 \<le> x \<Longrightarrow> 0 \<le> stored_value decimals x"
  by (simp add: stored_value_def py_round_nonneg split: option.splits)

section \<open>Invariants of the similarity matrix\<close>

text \<open>
  C3, as amended. For at least one document and as many embeddings as documents, the
  embeddings being the TF-IDF vectors that \<open>transform\<close> returns on a fitted instance,
  \<open>build_similarity_matrix\<close> returns a matrix that has one label per document, is
  square with side \<open>len(labels)\<close>, is symmetric, and has no negative value, whatever
  \<open>decimals\<close> is.
\<close>

theorem similarity_matrix_invariant:
  assumes "documents \<noteq> []"
    and "fit self0 D = Inr self"
    and "transform self documents' = Inr embeddings"
    and "length documents' = length documents"
  shows "\<exists>M. build_similarity_matrix documents embeddings decimals = Inr M \<and>
    length (labels M) = length documents \<and>
    length (matrix_values M) = length (labels M) \<and>
    (\<forall>i<length (labels M). length (matrix_values M ! i) = length (labels M)) \<and>
    (\<forall>i<length (labels M). \<forall>j<length (labels M).
       matrix_values M ! i ! j = matrix_values M ! j ! i \<and> 0 \<le> matrix_values M ! i ! j)"
proof -
  let ?n = "length documents"
  let ?cell = "\<lambda>a b. stored_value decimals (cosine a b)"
  let ?V = "map (\<lambda>a. map (?cell a) embeddings) embeddings"
  let ?M = "\<lparr>labels = map identifier documents, matrix_values = ?V\<rparr>"
  have built: "build_similarity_matrix documents embeddings decimals = Inr ?M"
    using assms(1) by (rule build_similarity_matrix_Inr)
  have "fitted self"
    using assms(2) by (rule fit_Inr_fitted)
  with assms(3) have "collect (transform_document self) documents' = Inr embeddings"
    by (simp add: transform_def)
  then have "length embeddings = length documents'"
    by (rule collect_Inr_length)
  with assms(4) have size: "length embeddings = ?n"
    by simp
  have tfidf: "\<forall>vector \<in> set embeddings. \<forall>x \<in> set vector. 0 \<le> x"
    using assms(2,3) by (rule transform_nonneg)
  have cell: "?V ! i ! j = ?cell (embeddings ! i) (embeddings ! j)"
    if "i < ?n" "j < ?n" for i j
    using that size by simp
  have nonneg: "\<forall>x \<in> set (embeddings ! i). 0 \<le> x" if "i < ?n" for i
    using that size tfidf nth_mem [of i embeddings] by auto
  have sym: "?V ! i ! j = ?V ! j ! i" if "i < ?n" "j < ?n" for i j
    using that by (simp only: cell cosine_commute [of "embeddings ! i"])
  have sign: "0 \<le> ?V ! i ! j" if "i < ?n" "j < ?n" for i j
  proof -
    have "0 \<le> cosine (embeddings ! i) (embeddings ! j)"
      using that by (intro cosine_nonneg nonneg)
    then show ?thesis
      using that by (simp only: cell stored_value_nonneg)
  qed
  have rows: "length (?V ! i) = ?n" if "i < ?n" for i
    using that size by simp
  have "length (labels ?M) = length documents \<and>
    length (matrix_values ?M) = length (labels ?M) \<and>
    (\<forall>i<length (labels ?M). length (matrix_values ?M ! i) = length (labels ?M)) \<and>
    (\<forall>i<length (labels ?M). \<forall>j<length (labels ?M).
       matrix_values ?M ! i ! j = matrix_values ?M ! j ! i \<and> 0 \<le> matrix_values ?M ! i ! j)"
    unfolding SimilarityMatrix.simps length_map
    using size sym sign rows by blast
  with built show ?thesis by blast
qed

lemma fit_doc_a_new:
  "fit new_model [doc_a] = Inr \<lparr>vocabulary = [(pystr ''x'', 0)], idf = [1], fitted = True\<rparr>"
  by (simp add: fit_doc_a new_model_def)

lemma transform_doc_a_doc_z:
  "transform \<lparr>vocabulary = [(pystr ''x'', 0)], idf = [1], fitted = True\<rparr> [doc_a, doc_z] =
     Inr [[1], [0]]"
  by (simp add: transform_def transform_document_def Counter_def counter_incr_def
      counter_get_def doc_a_def doc_z_def pystr_def)

lemma build_doc_a_doc_z:
  "build_similarity_matrix [doc_a, doc_z] [[1], [0]] (Some 2) =
     Inr \<lparr>labels = [pystr ''a'', pystr ''z''], matrix_values = [[1, 0], [0, 0]]\<rparr>"
  by (simp add: build_similarity_matrix_Inr stored_value_def cosine_def vec_norm_def
      dot_product_def py_round_def round_half_even_def doc_a_def doc_z_def)

theorem similarity_matrix_invariant_witness:
  "[doc_a, doc_z] \<noteq> [] \<and>
   fit new_model [doc_a] =
     Inr \<lparr>vocabulary = [(pystr ''x'', 0)], idf = [1], fitted = True\<rparr> \<and>
   transform \<lparr>vocabulary = [(pystr ''x'', 0)], idf = [1], fitted = True\<rparr> [doc_a, doc_z] =
     Inr [[1], [0]] \<and>
   length [doc_a, doc_z] = length [doc_a, doc_z] \<and>
   build_similarity_matrix [doc_a, doc_z] [[1], [0]] (Some 2) =
     Inr \<lparr>labels = [pystr ''a'', pystr ''z''], matrix_values = [[1, 0], [0, 0]]\<rparr>"
proof -
  have nonempty: "[doc_a, doc_z] \<noteq> []" by simp
  have same: "length [doc_a, doc_z] = length [doc_a, doc_z]" by simp
  from similarity_matrix_invariant
    [OF nonempty fit_doc_a_new transform_doc_a_doc_z same, of "Some 2"]
  obtain M where "build_similarity_matrix [doc_a, doc_z] [[1], [0]] (Some 2) = Inr M"
    and "length (labels M) = length [doc_a, doc_z]"
    by (elim exE conjE)
  moreover note build_doc_a_doc_z
  ultimately show ?thesis
    using nonempty fit_doc_a_new transform_doc_a_doc_z same by (intro conjI)
qed

text \<open>
  The claim's diagonal fails under rounding to a negative number of digits: the single
  document \<open>doc_a\<close> has the TF-IDF vector \<open>[1.0]\<close>, which is not zero, and with
  \<open>decimals = -1\<close> the stored self-similarity is \<open>round(1.0, -1) = 0.0\<close>.
\<close>

theorem similarity_diagonal_counterexample:
  "snd (fit_transform new_model [doc_a]) = Inr [[1]] \<and>
   build_similarity_matrix [doc_a] [[1]] (Some (- 1)) =
     Inr \<lparr>labels = [pystr ''a''], matrix_values = [[0]]\<rparr> \<and>
   [[0::real]] ! 0 ! 0 \<noteq> 1"
  by (simp add: build_similarity_matrix_Inr stored_value_def cosine_def vec_norm_def
      dot_product_def py_round_def round_half_even_def doc_a_def
      fit_transform_def fit_def new_model_def document_frequency_def counter_incr_def
      counter_get_def transform_def transform_document_def Counter_def pystr_def)

end
